theory Spec2Isabelle
  imports Complex_Main "HOL-Library.Word" "HOL-Library.Monad_Syntax"
begin

section \<open>Buffers and JavaScript values\<close>

text \<open>
  The parser of ELF Explorer (\<^verbatim>\<open>elf-parser.ts\<close>) works on a Node.js \<^verbatim>\<open>Buffer\<close>.
  A buffer is a list of bytes. JavaScript strings are sequences of UTF-16 code units.
  A \<^verbatim>\<open>number\<close> that holds a non-negative integer is a \<open>nat\<close>, a \<^verbatim>\<open>bigint\<close> is a
  \<open>nat\<close> or an \<open>int\<close>: the model computes with exact integers, which is what the
  double-precision arithmetic of JavaScript does as long as every value stays below
  \<open>2 ^ 53\<close>. The quotient \<^verbatim>\<open>Number(sh.size) / entSize\<close> is not an integer in general and
  is kept as a rational number.

  A read of the buffer that throws is the value \<open>None\<close> of an option; the functions that
  read thread the reader, whose cursor is the only thing that changes, through their
  results.

  \<^verbatim>\<open>buf.toString('utf8', start, end)\<close> is a function of the platform; the model takes the
  decoder from bytes to code units as a parameter \<open>dec\<close>. On bytes below \<open>0x80\<close> the
  platform's decoder is \<open>ascii\<close>.
\<close>

type_synonym byte = "8 word"
type_synonym buffer = "byte list"
type_synonym jsstring = "16 word list"
type_synonym decoder = "byte list \<Rightarrow> jsstring"

definition ascii :: decoder where
  "ascii bs = map ucast bs"

definition str :: "string \<Rightarrow> jsstring" where
  "str s = map (\<lambda>c. of_nat (of_char c)) s"

text \<open>The value of a byte sequence, least significant byte first and most significant first.\<close>

fun le_value :: "byte list \<Rightarrow> nat" where
  "le_value [] = 0"
| "le_value (b # bs) = unat b + 256 * le_value bs"

definition be_value :: "byte list \<Rightarrow> nat" where
  "be_value bs = le_value (rev bs)"

text \<open>
  \<^verbatim>\<open>buf.readUInt16LE(off)\<close>, \<^verbatim>\<open>readUInt32BE\<close>, \<^verbatim>\<open>readBigUInt64LE\<close> and so on: \<open>n\<close> bytes at
  \<open>off\<close>. Node throws a \<^verbatim>\<open>RangeError\<close> when \<open>off + n\<close> exceeds the length of the buffer;
  the thrown exception is the value \<open>None\<close>.
\<close>

definition readUInt :: "bool \<Rightarrow> nat \<Rightarrow> buffer \<Rightarrow> nat \<Rightarrow> nat option" where
  "readUInt le n b off =
     (if off + n \<le> length b
      then Some ((if le then le_value else be_value) (take n (drop off b)))
      else None)"

text \<open>Two's complement reading of an unsigned value of \<open>bits\<close> bits (\<^verbatim>\<open>readInt32LE\<close>, \<^verbatim>\<open>readBigInt64LE\<close>).\<close>

definition toSigned :: "nat \<Rightarrow> nat \<Rightarrow> int" where
  "toSigned bits v = (if 2 ^ (bits - 1) \<le> int v then int v - 2 ^ bits else int v)"

definition readInt :: "bool \<Rightarrow> nat \<Rightarrow> buffer \<Rightarrow> nat \<Rightarrow> int option" where
  "readInt le n b off = map_option (toSigned (8 * n)) (readUInt le n b off)"

section \<open>The class \<^verbatim>\<open>Reader\<close>\<close>

record reader =
  r_buf :: buffer
  r_is64 :: bool
  r_isLE :: bool
  r_pos :: nat

definition seek :: "nat \<Rightarrow> reader \<Rightarrow> reader" where
  "seek p r = r\<lparr>r_pos := p\<rparr>"

text \<open>
  \<^verbatim>\<open>u8(): number { return this.buf[this.pos++]; }\<close> indexes the buffer directly: out of range
  the value is \<^verbatim>\<open>undefined\<close> (here \<open>None\<close>), nothing is thrown, and the cursor still moves.
\<close>

definition u8 :: "reader \<Rightarrow> nat option \<times> reader" where
  "u8 r = ((if r_pos r < length (r_buf r) then Some (unat (r_buf r ! r_pos r)) else None),
           r\<lparr>r_pos := r_pos r + 1\<rparr>)"

text \<open>The other reads throw before the cursor is moved.\<close>

definition u16 :: "reader \<Rightarrow> (nat \<times> reader) option" where
  "u16 r = do {
     v \<leftarrow> readUInt (r_isLE r) 2 (r_buf r) (r_pos r);
     Some (v, r\<lparr>r_pos := r_pos r + 2\<rparr>)
   }"

definition u32 :: "reader \<Rightarrow> (nat \<times> reader) option" where
  "u32 r = do {
     v \<leftarrow> readUInt (r_isLE r) 4 (r_buf r) (r_pos r);
     Some (v, r\<lparr>r_pos := r_pos r + 4\<rparr>)
   }"

definition u64 :: "reader \<Rightarrow> (nat \<times> reader) option" where
  "u64 r = do {
     v \<leftarrow> readUInt (r_isLE r) 8 (r_buf r) (r_pos r);
     Some (v, r\<lparr>r_pos := r_pos r + 8\<rparr>)
   }"

definition addr :: "reader \<Rightarrow> (nat \<times> reader) option" where
  "addr r = (if r_is64 r then u64 r else u32 r)"

definition off :: "reader \<Rightarrow> (nat \<times> reader) option" where
  "off r = (if r_is64 r then u64 r else u32 r)"

definition xword :: "reader \<Rightarrow> (nat \<times> reader) option" where
  "xword r = (if r_is64 r then u64 r else u32 r)"

definition sxword :: "reader \<Rightarrow> (int \<times> reader) option" where
  "sxword r =
     (if r_is64 r
      then do {
        v \<leftarrow> readInt (r_isLE r) 8 (r_buf r) (r_pos r);
        Some (v, r\<lparr>r_pos := r_pos r + 8\<rparr>)
      }
      else do {
        v \<leftarrow> readInt (r_isLE r) 4 (r_buf r) (r_pos r);
        Some (v, r\<lparr>r_pos := r_pos r + 4\<rparr>)
      })"

text \<open>
  \<^verbatim>\<open>readCString(buf, offset)\<close>: the bytes from \<open>offset\<close> up to the first NUL byte of the
  buffer at or after \<open>offset\<close> (\<^verbatim>\<open>buf.indexOf(0, offset)\<close>), or up to the end of the buffer
  when there is none, decoded; the empty string when \<open>offset\<close> is not inside the buffer.
\<close>

definition readCString :: "decoder \<Rightarrow> buffer \<Rightarrow> nat \<Rightarrow> jsstring" where
  "readCString dec b offset =
     (if offset \<ge> length b then []
      else dec (takeWhile (\<lambda>c. c \<noteq> 0) (drop offset b)))"

section \<open>The decoded model\<close>

text \<open>
  The interfaces of \<^verbatim>\<open>elf-parser.ts\<close>. A field read with \<^verbatim>\<open>u8()\<close> is an option, since
  \<^verbatim>\<open>u8()\<close> may yield \<^verbatim>\<open>undefined\<close>; \<^verbatim>\<open>addend?\<close> and \<^verbatim>\<open>symbolName?\<close> are optional in the
  source.
\<close>

record elf_header =
  h_class :: nat
  h_data :: nat
  h_version :: "nat option"
  h_osabi :: "nat option"
  h_type :: nat
  h_machine :: nat
  h_entry :: nat
  h_phoff :: nat
  h_shoff :: nat
  h_flags :: nat
  h_ehsize :: nat
  h_phentsize :: nat
  h_phnum :: nat
  h_shentsize :: nat
  h_shnum :: nat
  h_shstrndx :: nat

record program_header =
  ph_type :: nat
  ph_flags :: nat
  ph_offset :: nat
  ph_vaddr :: nat
  ph_paddr :: nat
  ph_filesz :: nat
  ph_memsz :: nat
  ph_align :: nat

record section_header =
  sh_nameIdx :: nat
  sh_name :: jsstring
  sh_type :: nat
  sh_flags :: nat
  sh_addr :: nat
  sh_offset :: nat
  sh_size :: nat
  sh_link :: nat
  sh_info :: nat
  sh_addralign :: nat
  sh_entsize :: nat

record elf_symbol =
  st_nameIdx :: nat
  st_name :: jsstring
  st_value :: nat
  st_size :: nat
  st_info :: "nat option"
  st_other :: "nat option"
  st_shndx :: nat
  st_fileOffset :: nat
  st_entSize :: nat

record dyn_entry =
  d_tag :: int
  d_val :: nat
  d_fileOffset :: nat
  d_entSize :: nat

record rel_entry =
  rl_offset :: nat
  rl_info :: nat
  rl_addend :: "int option"
  rl_symbolName :: "jsstring option"
  rl_fileOffset :: nat
  rl_entSize :: nat

record string_entry =
  se_value :: jsstring
  se_fileOffset :: nat
  se_length :: nat

record symbol_table =
  symtab_section :: jsstring
  symtab_sectionOffset :: nat
  symtab_symbols :: "elf_symbol list"

record rel_table =
  reltab_section :: jsstring
  reltab_sectionOffset :: nat
  reltab_entries :: "rel_entry list"

record string_table =
  strtab_section :: jsstring
  strtab_sectionOffset :: nat
  strtab_strings :: "string_entry list"

record elf_file =
  header :: elf_header
  programHeaders :: "program_header list"
  sectionHeaders :: "section_header list"
  symbols :: "symbol_table list"
  dynamicEntries :: "dyn_entry list"
  dynamicSectionOffset :: nat
  relocations :: "rel_table list"
  stringTables :: "string_table list"

text \<open>
  A call of \<^verbatim>\<open>parseElf\<close> ends in one of three ways: it returns \<^verbatim>\<open>null\<close>, it returns an
  \<^verbatim>\<open>ElfFile\<close>, or a read of the buffer throws a \<^verbatim>\<open>RangeError\<close> that \<^verbatim>\<open>parseElf\<close> does not
  catch.
\<close>

datatype parse_result = Null | Parsed elf_file | RangeError

section \<open>\<^verbatim>\<open>parseElf\<close>\<close>

text \<open>
  A \<^verbatim>\<open>for\<close> loop that runs its body on each element in turn with the one reader and
  pushes the body's result; a throw in the body leaves the loop and the function.
\<close>

fun forEach :: "('x \<Rightarrow> reader \<Rightarrow> ('a \<times> reader) option) \<Rightarrow> 'x list \<Rightarrow> reader
    \<Rightarrow> ('a list \<times> reader) option" where
  "forEach body [] r = Some ([], r)"
| "forEach body (x # xs) r = do {
     (y, r) \<leftarrow> body x r;
     (ys, r) \<leftarrow> forEach body xs r;
     Some (y # ys, r)
   }"

text \<open>
  \<^verbatim>\<open>for (let i = 0; i < count; i++)\<close> with a \<open>count\<close> that need not be an integer runs
  for \<open>i = 0, 1, \<dots>\<close> as long as \<open>i < count\<close>: once for every natural number below
  \<open>count\<close>.
\<close>

definition iterations :: "rat \<Rightarrow> nat" where
  "iterations count = nat \<lceil>count\<rceil>"

text \<open>
  \<^verbatim>\<open>const entSize = Number(sh.entsize) || \<dots>\<close> is the declared entry size of the section, or
  the default of the table when that is 0, and
  \<^verbatim>\<open>const count = Number(sh.size) / entSize\<close> is the quotient of two numbers, not an
  integer division.
\<close>

definition entryCount :: "section_header \<Rightarrow> nat \<Rightarrow> rat" where
  "entryCount sh entSize = of_nat (sh_size sh) / of_nat entSize"

subsection \<open>File header\<close>

definition readHeader :: "nat \<Rightarrow> nat \<Rightarrow> reader \<Rightarrow> (elf_header \<times> reader) option" where
  "readHeader elfClass elfData r =
     (let r = seek 6 r;
          (version, r) = u8 r;
          (osabi, r) = u8 r;
          r = seek 16 r
      in do {
        (type, r) \<leftarrow> u16 r;
        (machine, r) \<leftarrow> u16 r;
        (_, r) \<leftarrow> u32 r;
        (entry, r) \<leftarrow> addr r;
        (phoff, r) \<leftarrow> off r;
        (shoff, r) \<leftarrow> off r;
        (flags, r) \<leftarrow> u32 r;
        (ehsize, r) \<leftarrow> u16 r;
        (phentsize, r) \<leftarrow> u16 r;
        (phnum, r) \<leftarrow> u16 r;
        (shentsize, r) \<leftarrow> u16 r;
        (shnum, r) \<leftarrow> u16 r;
        (shstrndx, r) \<leftarrow> u16 r;
        Some (\<lparr>h_class = elfClass, h_data = elfData, h_version = version, h_osabi = osabi,
                h_type = type, h_machine = machine, h_entry = entry, h_phoff = phoff,
                h_shoff = shoff, h_flags = flags, h_ehsize = ehsize, h_phentsize = phentsize,
                h_phnum = phnum, h_shentsize = shentsize, h_shnum = shnum,
                h_shstrndx = shstrndx\<rparr>, r)
      })"

subsection \<open>Program headers and section headers\<close>

definition readProgramHeader :: "bool \<Rightarrow> nat \<Rightarrow> reader \<Rightarrow> (program_header \<times> reader) option" where
  "readProgramHeader is64 entFileOffset r =
     (let r = seek entFileOffset r in do {
        (ptype, r) \<leftarrow> u32 r;
        (pflags, r) \<leftarrow> (if is64 then u32 r else Some (0, r));
        (poffset, r) \<leftarrow> off r;
        (pvaddr, r) \<leftarrow> addr r;
        (ppaddr, r) \<leftarrow> addr r;
        (pfilesz, r) \<leftarrow> xword r;
        (pmemsz, r) \<leftarrow> xword r;
        (pflags, r) \<leftarrow> (if \<not> is64 then u32 r else Some (pflags, r));
        (palign, r) \<leftarrow> xword r;
        Some (\<lparr>ph_type = ptype, ph_flags = pflags, ph_offset = poffset, ph_vaddr = pvaddr,
                ph_paddr = ppaddr, ph_filesz = pfilesz, ph_memsz = pmemsz, ph_align = palign\<rparr>, r)
      })"

definition readSectionHeader :: "nat \<Rightarrow> reader \<Rightarrow> (section_header \<times> reader) option" where
  "readSectionHeader entFileOffset r =
     (let r = seek entFileOffset r in do {
        (shnameIdx, r) \<leftarrow> u32 r;
        (shtype, r) \<leftarrow> u32 r;
        (shflags, r) \<leftarrow> xword r;
        (shaddr, r) \<leftarrow> addr r;
        (shoffset, r) \<leftarrow> off r;
        (shsize, r) \<leftarrow> xword r;
        (shlink, r) \<leftarrow> u32 r;
        (shinfo, r) \<leftarrow> u32 r;
        (shaddralign, r) \<leftarrow> xword r;
        (shentsize2, r) \<leftarrow> xword r;
        Some (\<lparr>sh_nameIdx = shnameIdx, sh_name = [], sh_type = shtype, sh_flags = shflags,
                sh_addr = shaddr, sh_offset = shoffset, sh_size = shsize, sh_link = shlink,
                sh_info = shinfo, sh_addralign = shaddralign, sh_entsize = shentsize2\<rparr>, r)
      })"

text \<open>
  The names of the sections, from the section \<open>shstrndx\<close> when there is one. The loop
  assigns \<^verbatim>\<open>sh.name\<close> only, so the offset of the string table read before the loop is the
  one used for every section.
\<close>

definition resolveSectionNames :: "decoder \<Rightarrow> buffer \<Rightarrow> nat \<Rightarrow> section_header list
    \<Rightarrow> section_header list" where
  "resolveSectionNames dec data shstrndx shs =
     (if shstrndx < length shs
      then (let strtab = shs ! shstrndx;
                strtabOff = sh_offset strtab
            in map (\<lambda>sh. sh\<lparr>sh_name := readCString dec data (strtabOff + sh_nameIdx sh)\<rparr>) shs)
      else shs)"

subsection \<open>Symbol tables\<close>

definition readSymbol :: "decoder \<Rightarrow> buffer \<Rightarrow> bool \<Rightarrow> section_header option \<Rightarrow> nat \<Rightarrow> nat
    \<Rightarrow> nat \<Rightarrow> reader \<Rightarrow> (elf_symbol \<times> reader) option" where
  "readSymbol dec data is64 strSec strOff entSize symFileOffset r =
     (let r = seek symFileOffset r in do {
        (sym, r) \<leftarrow>
          (if is64 then do {
             (nameIdx, r) \<leftarrow> u32 r;
             let (info, r) = u8 r;
             let (other, r) = u8 r;
             (shndx, r) \<leftarrow> u16 r;
             (value, r) \<leftarrow> addr r;
             (size, r) \<leftarrow> xword r;
             Some (\<lparr>st_nameIdx = nameIdx, st_name = [], st_value = value, st_size = size,
                     st_info = info, st_other = other, st_shndx = shndx,
                     st_fileOffset = symFileOffset, st_entSize = entSize\<rparr>, r)
           } else do {
             (nameIdx, r) \<leftarrow> u32 r;
             (value, r) \<leftarrow> addr r;
             (size, r) \<leftarrow> xword r;
             let (info, r) = u8 r;
             let (other, r) = u8 r;
             (shndx, r) \<leftarrow> u16 r;
             Some (\<lparr>st_nameIdx = nameIdx, st_name = [], st_value = value, st_size = size,
                     st_info = info, st_other = other, st_shndx = shndx,
                     st_fileOffset = symFileOffset, st_entSize = entSize\<rparr>, r)
           });
        let sym = (if strSec \<noteq> None
                   then sym\<lparr>st_name := readCString dec data (strOff + st_nameIdx sym)\<rparr>
                   else sym);
        Some (sym, r)
      })"

text \<open>The body of the loop over the sections of type SYMTAB (2) and DYNSYM (11).\<close>

definition symEntSize :: "bool \<Rightarrow> section_header \<Rightarrow> nat" where
  "symEntSize is64 sh = (if sh_entsize sh \<noteq> 0 then sh_entsize sh else if is64 then 24 else 16)"

definition readSymbolTable :: "decoder \<Rightarrow> buffer \<Rightarrow> bool \<Rightarrow> section_header list
    \<Rightarrow> section_header \<Rightarrow> reader \<Rightarrow> (symbol_table \<times> reader) option" where
  "readSymbolTable dec data is64 shs sh r =
     (let entSize = symEntSize is64 sh;
          count = entryCount sh entSize;
          secOff = sh_offset sh;
          strSec = (if sh_link sh < length shs then Some (shs ! sh_link sh) else None);
          strOff = (case strSec of Some s \<Rightarrow> sh_offset s | None \<Rightarrow> 0)
      in do {
        (syms, r) \<leftarrow> forEach (\<lambda>i. readSymbol dec data is64 strSec strOff entSize (secOff + i * entSize))
                       [0 ..< iterations count] r;
        Some (\<lparr>symtab_section =
                  (if sh_name sh \<noteq> [] then sh_name sh
                   else if sh_type sh = 2 then str ''.symtab'' else str ''.dynsym''),
                symtab_sectionOffset = secOff, symtab_symbols = syms\<rparr>, r)
      })"

subsection \<open>Dynamic section\<close>

text \<open>
  The inner loop over the entries of one DYNAMIC section (type 6): every entry read is
  pushed, and the loop is left after an entry with tag 0 has been pushed.
\<close>

fun readDynamicEntries :: "nat \<Rightarrow> nat \<Rightarrow> nat list \<Rightarrow> reader \<Rightarrow> (dyn_entry list \<times> reader) option" where
  "readDynamicEntries secOff entSize [] r = Some ([], r)"
| "readDynamicEntries secOff entSize (i # is) r =
     (let entFileOffset = secOff + i * entSize;
          r = seek entFileOffset r
      in do {
        (tag, r) \<leftarrow> sxword r;
        (val, r) \<leftarrow> xword r;
        let e = \<lparr>d_tag = tag, d_val = val, d_fileOffset = entFileOffset, d_entSize = entSize\<rparr>;
        if tag = 0 then Some ([e], r)
        else do {
          (es, r) \<leftarrow> readDynamicEntries secOff entSize is r;
          Some (e # es, r)
        }
      })"

definition dynEntSize :: "bool \<Rightarrow> section_header \<Rightarrow> nat" where
  "dynEntSize is64 sh = (if sh_entsize sh \<noteq> 0 then sh_entsize sh else if is64 then 16 else 8)"

definition readDynamicSection :: "bool \<Rightarrow> section_header \<Rightarrow> reader \<Rightarrow> (dyn_entry list \<times> reader) option" where
  "readDynamicSection is64 sh r =
     (let entSize = dynEntSize is64 sh;
          count = entryCount sh entSize;
          secOff = sh_offset sh
      in readDynamicEntries secOff entSize [0 ..< iterations count] r)"

subsection \<open>Relocation tables\<close>

definition readRelocation :: "bool \<Rightarrow> bool \<Rightarrow> elf_symbol list option \<Rightarrow> nat \<Rightarrow> nat \<Rightarrow> reader
    \<Rightarrow> (rel_entry \<times> reader) option" where
  "readRelocation is64 isRela symSymbols entSize entFileOffset r =
     (let r = seek entFileOffset r in do {
        (offset, r) \<leftarrow> addr r;
        (info, r) \<leftarrow> xword r;
        (addend, r) \<leftarrow> (if isRela then map_option (\<lambda>(v, r). (Some v, r)) (sxword r)
                         else Some (None, r));
        let symIdx = (if is64 then drop_bit 32 info else drop_bit 8 info);
        let symbolName =
          (case symSymbols of
             Some syms \<Rightarrow> if symIdx > 0 \<and> symIdx < length syms
                          then Some (st_name (syms ! symIdx)) else None
           | None \<Rightarrow> None);
        Some (\<lparr>rl_offset = offset, rl_info = info, rl_addend = addend,
                rl_symbolName = symbolName, rl_fileOffset = entFileOffset,
                rl_entSize = entSize\<rparr>, r)
      })"

text \<open>The body of the loop over the sections of type RELA (4) and REL (9).\<close>

definition relEntSize :: "bool \<Rightarrow> bool \<Rightarrow> section_header \<Rightarrow> nat" where
  "relEntSize is64 isRela sh =
     (if sh_entsize sh \<noteq> 0 then sh_entsize sh
      else if is64 then (if isRela then 24 else 16)
      else (if isRela then 12 else 8))"

definition readRelocationTable :: "bool \<Rightarrow> section_header list \<Rightarrow> symbol_table list
    \<Rightarrow> section_header \<Rightarrow> reader \<Rightarrow> (rel_table \<times> reader) option" where
  "readRelocationTable is64 shs syms sh r =
     (let isRela = (sh_type sh = 4);
          entSize = relEntSize is64 isRela sh;
          count = entryCount sh entSize;
          secOff = sh_offset sh;
          symSec = (if sh_link sh < length shs then Some (shs ! sh_link sh) else None);
          symSymbols =
            (case symSec of
               Some sec \<Rightarrow> map_option symtab_symbols
                             (find (\<lambda>s. symtab_section s = sh_name sec) syms)
             | None \<Rightarrow> None)
      in do {
        (entries, r) \<leftarrow> forEach (\<lambda>i. readRelocation is64 isRela symSymbols entSize (secOff + i * entSize))
                          [0 ..< iterations count] r;
        Some (\<lparr>reltab_section = sh_name sh, reltab_sectionOffset = secOff,
                reltab_entries = entries\<rparr>, r)
      })"

subsection \<open>String tables\<close>

text \<open>
  \<^verbatim>\<open>while (pos < end) { const s = readCString(data, pos); \<dots>; pos += s.length + 1; }\<close>
\<close>

function readStrings :: "decoder \<Rightarrow> buffer \<Rightarrow> nat \<Rightarrow> nat \<Rightarrow> string_entry list" where
  "readStrings dec data endPos pos =
     (if pos < endPos
      then (let s = readCString dec data pos
            in (if length s > 0
                then [\<lparr>se_value = s, se_fileOffset = pos, se_length = length s + 1\<rparr>]
                else [])
               @ readStrings dec data endPos (pos + length s + 1))
      else [])"
  by pat_completeness auto
termination
  by (relation "measure (\<lambda>(dec, data, endPos, pos). endPos - pos)") auto

text \<open>The body of the loop over the sections of type STRTAB (3).\<close>

definition readStringTable :: "decoder \<Rightarrow> buffer \<Rightarrow> section_header \<Rightarrow> string_table" where
  "readStringTable dec data sh =
     (let off = sh_offset sh;
          endPos = off + sh_size sh
      in \<lparr>strtab_section = sh_name sh, strtab_sectionOffset = off,
          strtab_strings = readStrings dec data endPos off\<rparr>)"

subsection \<open>The whole decode\<close>

text \<open>
  The part of \<^verbatim>\<open>parseElf\<close> after the two checks that return \<^verbatim>\<open>null\<close>; \<open>None\<close> is a
  \<^verbatim>\<open>RangeError\<close> thrown by a read. \<open>dynamicSectionOffset\<close> is assigned in every DYNAMIC
  section, so its final value is the offset of the last one, or the initial 0.
\<close>

definition decodeElf :: "decoder \<Rightarrow> buffer \<Rightarrow> elf_file option" where
  "decodeElf dec data =
     (let elfClass = unat (data ! 4);
          elfData = unat (data ! 5);
          is64 = (elfClass = 2);
          isLE = (elfData = 1);
          r = \<lparr>r_buf = data, r_is64 = is64, r_isLE = isLE, r_pos = 0\<rparr>
      in do {
        (hdr, r) \<leftarrow> readHeader elfClass elfData r;
        (phs, r) \<leftarrow> forEach (\<lambda>i. readProgramHeader is64 (h_phoff hdr + i * h_phentsize hdr))
                      [0 ..< h_phnum hdr] r;
        (shs, r) \<leftarrow> forEach (\<lambda>i. readSectionHeader (h_shoff hdr + i * h_shentsize hdr))
                      [0 ..< h_shnum hdr] r;
        let shs = resolveSectionNames dec data (h_shstrndx hdr) shs;
        (syms, r) \<leftarrow> forEach (readSymbolTable dec data is64 shs)
                       (filter (\<lambda>sh. \<not> (sh_type sh \<noteq> 2 \<and> sh_type sh \<noteq> 11)) shs) r;
        (dyns, r) \<leftarrow> forEach (readDynamicSection is64)
                       (filter (\<lambda>sh. \<not> (sh_type sh \<noteq> 6)) shs) r;
        let dynOffs = map sh_offset (filter (\<lambda>sh. \<not> (sh_type sh \<noteq> 6)) shs);
        (rels, r) \<leftarrow> forEach (readRelocationTable is64 shs syms)
                       (filter (\<lambda>sh. \<not> (sh_type sh \<noteq> 4 \<and> sh_type sh \<noteq> 9)) shs) r;
        let strs = map (readStringTable dec data)
                       (filter (\<lambda>sh. \<not> (sh_type sh \<noteq> 3)) shs);
        Some \<lparr>header = hdr, programHeaders = phs, sectionHeaders = shs, symbols = syms,
              dynamicEntries = concat dyns,
              dynamicSectionOffset = (if dynOffs = [] then 0 else last dynOffs),
              relocations = rels, stringTables = strs\<rparr>
      })"

definition parseElf :: "decoder \<Rightarrow> buffer \<Rightarrow> parse_result" where
  "parseElf dec data =
     (if length data < 52 then Null
      else if data ! 0 \<noteq> 0x7f \<or> data ! 1 \<noteq> 0x45 \<or> data ! 2 \<noteq> 0x4c \<or> data ! 3 \<noteq> 0x46 then Null
      else case decodeElf dec data of None \<Rightarrow> RangeError | Some elf \<Rightarrow> Parsed elf)"

section \<open>Widths of values and table entries\<close>

text \<open>
  The number of bytes that the reads of one value and of one table entry consume: an
  address-sized value has 8 bytes in a 64-bit file and 4 otherwise; the reads of a program
  header, a section header, a symbol, a dynamic entry and a relocation add up to the sizes
  below.
\<close>

definition addrBytes :: "reader \<Rightarrow> nat" where
  "addrBytes r = (if r_is64 r then 8 else 4)"

definition phBytes :: "bool \<Rightarrow> nat" where
  "phBytes is64 = (if is64 then 56 else 32)"

definition shBytes :: "bool \<Rightarrow> nat" where
  "shBytes is64 = (if is64 then 64 else 40)"

definition symBytes :: "bool \<Rightarrow> nat" where
  "symBytes is64 = (if is64 then 24 else 16)"


definition relBytes :: "bool \<Rightarrow> bool \<Rightarrow> nat" where
  "relBytes is64 isRela = (if is64 then (if isRela then 24 else 16) else (if isRela then 12 else 8))"

text \<open>Two readers over the same buffer with the same width and byte order.\<close>

definition sameFile :: "reader \<Rightarrow> reader \<Rightarrow> bool" where
  "sameFile r r' \<longleftrightarrow> r_buf r' = r_buf r \<and> r_is64 r' = r_is64 r \<and> r_isLE r' = r_isLE r"


section \<open>Example files\<close>

text \<open>
  Encoders for writing down 32-bit little-endian example files field by field: a file
  header of 52 bytes (type 2, machine 3, version 1 and header size 52 are fixed), a
  program header of 32 bytes, a section header of 40 bytes, a symbol of 16 bytes.
\<close>

definition le16 :: "16 word \<Rightarrow> byte list" where
  "le16 w = [ucast w, ucast (drop_bit 8 w)]"

definition le32 :: "32 word \<Rightarrow> byte list" where
  "le32 w = [ucast w, ucast (drop_bit 8 w), ucast (drop_bit 16 w), ucast (drop_bit 24 w)]"

definition ehdr32 :: "byte \<Rightarrow> byte \<Rightarrow> 32 word \<Rightarrow> 32 word \<Rightarrow> 16 word \<Rightarrow> 16 word \<Rightarrow> 16 word \<Rightarrow> 16 word
    \<Rightarrow> 16 word \<Rightarrow> byte list" where
  "ehdr32 cls dat phoff shoff phentsize phnum shentsize shnum shstrndx =
     [0x7f, 0x45, 0x4c, 0x46, cls, dat, 1, 0] @ replicate 8 0
     @ le16 2 @ le16 3 @ le32 1 @ le32 0 @ le32 phoff @ le32 shoff @ le32 0
     @ le16 52 @ le16 phentsize @ le16 phnum @ le16 shentsize @ le16 shnum @ le16 shstrndx"


definition shdr32 :: "32 word \<Rightarrow> 32 word \<Rightarrow> 32 word \<Rightarrow> 32 word \<Rightarrow> 32 word \<Rightarrow> 32 word \<Rightarrow> byte list" where
  "shdr32 nameIdx typ offset sz link entsize =
     le32 nameIdx @ le32 typ @ le32 0 @ le32 0 @ le32 offset @ le32 sz @ le32 link
     @ le32 0 @ le32 0 @ le32 entsize"

definition sym32 :: "32 word \<Rightarrow> 32 word \<Rightarrow> 32 word \<Rightarrow> byte \<Rightarrow> 16 word \<Rightarrow> byte list" where
  "sym32 nameIdx val sz info shndx = le32 nameIdx @ le32 val @ le32 sz @ [info, 0] @ le16 shndx"

text \<open>A header alone, with class byte 3.\<close>

definition file_class3 :: buffer where
  "file_class3 = ehdr32 3 1 0 0 0 0 0 0 0"




text \<open>
  124 bytes: two symbols of 16 bytes at 52 and 68, and at 84 one section header: a SYMTAB
  section (type 2) at offset 52 of size 17 with entry size 16, linked to section 1, which
  does not exist.
\<close>

definition file_symtab_remainder :: buffer where
  "file_symtab_remainder = ehdr32 1 1 0 84 0 0 40 1 1
     @ sym32 1 0x10 4 0x12 1 @ sym32 2 0x20 8 0x11 1 @ shdr32 0 2 52 17 1 16"

text \<open>
  108 bytes: the dynamic entries (tag 1, value 17) at 52 and (tag 14, value 34) at 60, and
  at 68 one section header: a DYNAMIC section (type 6) at offset 52 of size 12 with entry
  size 8.
\<close>

definition file_dynamic_remainder :: buffer where
  "file_dynamic_remainder = ehdr32 1 1 0 68 0 0 40 1 1
     @ le32 1 @ le32 17 @ le32 14 @ le32 34 @ shdr32 0 6 52 12 0 8"

text \<open>
  160 bytes: \<open>abc\<close>, NUL, NUL, \<open>de\<close>, NUL at offset 100, then NUL bytes up to 120, and at
  120 one section header: a STRTAB section at offset 100 of size 20.
\<close>

definition file_strtab_scenario :: buffer where
  "file_strtab_scenario = ehdr32 1 1 0 120 0 0 40 1 1 @ replicate 48 0
     @ [0x61, 0x62, 0x63, 0, 0, 0x64, 0x65, 0] @ replicate 12 0 @ shdr32 0 3 100 20 0 0"

text \<open>
  220 bytes, three sections, the first of which holds the section names:
  a string table at 52 with \<open>f\<close> at index 1 and \<open>g\<close> at index 3; a symbol table named
  \<open>f\<close> at 60 with two symbols, named \<open>f\<close> and \<open>g\<close>; a REL section (type 9) named \<open>g\<close> at
  92, linked to the symbol table, with one entry of offset \<open>0x1000\<close> and info \<open>0x0105\<close>.
  The section headers are at 100.
\<close>

definition file_rel32 :: buffer where
  "file_rel32 = ehdr32 1 1 0 100 0 0 40 3 0
     @ [0, 0x66, 0, 0x67, 0, 0, 0, 0]
     @ sym32 1 0 0 0 0 @ sym32 3 0 0 0 0
     @ le32 0x1000 @ le32 0x0105
     @ shdr32 1 3 52 5 0 0 @ shdr32 1 2 60 32 0 16 @ shdr32 3 9 92 8 1 8"


text \<open>
  A reader over the eight bytes of one 32-bit REL entry, of offset \<open>0x1000\<close> and info
  \<open>0x0105\<close>, and a symbol table of two symbols named \<open>f\<close> and \<open>g\<close>.
\<close>

definition rel_entry_reader :: reader where
  "rel_entry_reader = \<lparr>r_buf = le32 0x1000 @ le32 0x0105, r_is64 = False, r_isLE = True, r_pos = 0\<rparr>"

definition two_symbols :: "elf_symbol list" where
  "two_symbols =
     [\<lparr>st_nameIdx = 1, st_name = str ''f'', st_value = 0, st_size = 0, st_info = Some 0,
        st_other = Some 0, st_shndx = 0, st_fileOffset = 60, st_entSize = 16\<rparr>,
      \<lparr>st_nameIdx = 3, st_name = str ''g'', st_value = 0, st_size = 0, st_info = Some 0,
        st_other = Some 0, st_shndx = 0, st_fileOffset = 76, st_entSize = 16\<rparr>]"


section \<open>The typed reads\<close>

lemma le_value_bound: "le_value bs < 256 ^ length bs"
proof (induction bs)
  case Nil show ?case by simp
next
  case (Cons b bs)
  have "unat b < 256" using unsigned_less [of b, where ?'a = nat] by simp
  with Cons show ?case by simp
qed

lemma be_value_bound: "be_value bs < 256 ^ length bs"
  using le_value_bound [of "rev bs"] by (simp add: be_value_def)

lemma readUInt_bound: "readUInt le n b p = Some v \<Longrightarrow> v < 256 ^ n"
  using le_value_bound [of "take n (drop p b)"] be_value_bound [of "take n (drop p b)"]
  by (auto simp: readUInt_def split: if_splits)

lemma readUInt_in_range: "readUInt le n b p = Some v \<Longrightarrow> p + n \<le> length b"
  by (simp add: readUInt_def split: if_splits)

lemma readUInt_None: "readUInt le n b p = None \<longleftrightarrow> length b < p + n"
  by (auto simp: readUInt_def)

text \<open>
  A read that returns moves the cursor by the width of the value and has found that many
  bytes in the buffer; nothing else of the reader changes.
\<close>

lemma u8D: "u8 r = (v, r') \<Longrightarrow> r' = r\<lparr>r_pos := r_pos r + 1\<rparr>"
  by (auto simp: u8_def)

lemma u16D: "u16 r = Some (v, r') \<Longrightarrow>
    r' = r\<lparr>r_pos := r_pos r + 2\<rparr> \<and> r_pos r + 2 \<le> length (r_buf r)"
  by (auto simp: u16_def bind_eq_Some_conv dest: readUInt_in_range)

lemma u32D: "u32 r = Some (v, r') \<Longrightarrow>
    r' = r\<lparr>r_pos := r_pos r + 4\<rparr> \<and> r_pos r + 4 \<le> length (r_buf r)"
  by (auto simp: u32_def bind_eq_Some_conv dest: readUInt_in_range)

lemma u64D: "u64 r = Some (v, r') \<Longrightarrow>
    r' = r\<lparr>r_pos := r_pos r + 8\<rparr> \<and> r_pos r + 8 \<le> length (r_buf r)"
  by (auto simp: u64_def bind_eq_Some_conv dest: readUInt_in_range)

lemma addrD: "addr r = Some (v, r') \<Longrightarrow>
    r' = r\<lparr>r_pos := r_pos r + addrBytes r\<rparr> \<and> r_pos r + addrBytes r \<le> length (r_buf r)"
  by (auto simp: addr_def addrBytes_def dest: u64D u32D split: if_splits)

lemma offD: "off r = Some (v, r') \<Longrightarrow>
    r' = r\<lparr>r_pos := r_pos r + addrBytes r\<rparr> \<and> r_pos r + addrBytes r \<le> length (r_buf r)"
  by (auto simp: off_def addrBytes_def dest: u64D u32D split: if_splits)


lemma sxwordD: "sxword r = Some (v, r') \<Longrightarrow>
    r' = r\<lparr>r_pos := r_pos r + addrBytes r\<rparr> \<and> r_pos r + addrBytes r \<le> length (r_buf r)"
  by (auto simp: sxword_def addrBytes_def readInt_def bind_eq_Some_conv
        dest: readUInt_in_range split: if_splits)

lemma u16_Some: "u16 r = Some (v, r') \<longleftrightarrow>
    readUInt (r_isLE r) 2 (r_buf r) (r_pos r) = Some v \<and> r' = r\<lparr>r_pos := r_pos r + 2\<rparr>"
  by (auto simp: u16_def bind_eq_Some_conv)

lemma u32_Some: "u32 r = Some (v, r') \<longleftrightarrow>
    readUInt (r_isLE r) 4 (r_buf r) (r_pos r) = Some v \<and> r' = r\<lparr>r_pos := r_pos r + 4\<rparr>"
  by (auto simp: u32_def bind_eq_Some_conv)

lemma u64_Some: "u64 r = Some (v, r') \<longleftrightarrow>
    readUInt (r_isLE r) 8 (r_buf r) (r_pos r) = Some v \<and> r' = r\<lparr>r_pos := r_pos r + 8\<rparr>"
  by (auto simp: u64_def bind_eq_Some_conv)

lemma xword_bound:
  "xword r = Some (v, r') \<Longrightarrow> v < 2 ^ (if r_is64 r then 64 else 32)"
  by (auto simp: xword_def u64_def u32_def bind_eq_Some_conv split: if_splits
        dest!: readUInt_bound)

lemma u16_None: "u16 r = None \<longleftrightarrow> length (r_buf r) < r_pos r + 2"
  by (auto simp: u16_def readUInt_def split: if_splits)

lemma u32_None: "u32 r = None \<longleftrightarrow> length (r_buf r) < r_pos r + 4"
  by (auto simp: u32_def readUInt_def split: if_splits)

lemma u64_None: "u64 r = None \<longleftrightarrow> length (r_buf r) < r_pos r + 8"
  by (auto simp: u64_def readUInt_def split: if_splits)

lemma addr_None: "addr r = None \<longleftrightarrow> length (r_buf r) < r_pos r + addrBytes r"
  by (simp add: addr_def addrBytes_def u64_None u32_None)

lemma sxword_None: "sxword r = None \<longleftrightarrow> length (r_buf r) < r_pos r + addrBytes r"
  by (auto simp: sxword_def addrBytes_def readInt_def readUInt_def split: if_splits)

text \<open>
  Claim C4 (evaluation). At the end of a buffer the reads of two bytes and more throw and
  leave the cursor where it is, but \<^verbatim>\<open>u8()\<close> throws nothing: it yields \<^verbatim>\<open>undefined\<close> and moves
  the cursor beyond the end of the buffer.
\<close>

theorem u8_out_of_range:
  "u8 \<lparr>r_buf = [0x7f, 0x45], r_is64 = False, r_isLE = True, r_pos = 2\<rparr>
     = (None, \<lparr>r_buf = [0x7f, 0x45], r_is64 = False, r_isLE = True, r_pos = 3\<rparr>)
   \<and> u16 \<lparr>r_buf = [0x7f, 0x45], r_is64 = False, r_isLE = True, r_pos = 2\<rparr> = None"
  by (simp add: u8_def u16_def readUInt_def)

section \<open>Buffers that are not ELF files\<close>

lemma take4_nth: "4 \<le> length xs \<Longrightarrow> take 4 xs = [xs ! 0, xs ! 1, xs ! 2, xs ! 3]"
  by (auto simp: numeral_eq_Suc Suc_le_length_iff)

lemma parseElf_Parsed:
  "parseElf dec data = Parsed m \<longleftrightarrow>
     52 \<le> length data \<and> take 4 data = [0x7f, 0x45, 0x4c, 0x46] \<and> decodeElf dec data = Some m"
  by (auto simp: parseElf_def take4_nth split: option.splits)

text \<open>
  Claim C2. A buffer shorter than 52 bytes, or whose first four bytes are not
  \<open>0x7F 'E' 'L' 'F'\<close>, is rejected: \<^verbatim>\<open>parseElf\<close> returns \<^verbatim>\<open>null\<close>, the value by which it
  says that the buffer is not an ELF file, and so neither a model nor a part of one.
\<close>

theorem parseElf_NotElf:
  "length data < 52 \<or> take 4 data \<noteq> [0x7f, 0x45, 0x4c, 0x46] \<Longrightarrow> parseElf dec data = Null"
  by (auto simp: parseElf_def take4_nth)

theorem parseElf_NotElf_witness:
  "parseElf ascii [0x7f, 0x45, 0x4c] = Null
   \<and> parseElf ascii ([0x7f, 0x45, 0x4c, 0x47, 1, 1] @ replicate 46 0) = Null"
  using parseElf_NotElf [of "[0x7f, 0x45, 0x4c]" ascii]
    parseElf_NotElf [of "[0x7f, 0x45, 0x4c, 0x47, 1, 1] @ replicate 46 0" ascii]
  by simp

section \<open>Loops and stages of the decode\<close>



lemma forEach_all:
  assumes "forEach body xs r = Some (ys, r')" and "I r"
    and step: "\<And>x r y r'. x \<in> set xs \<Longrightarrow> I r \<Longrightarrow> body x r = Some (y, r') \<Longrightarrow> I r' \<and> Q x y"
  shows "I r' \<and> list_all2 Q xs ys"
  using assms
proof (induction xs arbitrary: r ys)
  case Nil
  then show ?case by simp
next
  case (Cons x xs)
  from Cons.prems(1) obtain y r1 ys' where
    b: "body x r = Some (y, r1)" and f: "forEach body xs r1 = Some (ys', r')" and ys: "ys = y # ys'"
    by (auto simp: bind_eq_Some_conv)
  from Cons.prems(3) [of x r y r1] b Cons.prems(2) have i1: "I r1" and q: "Q x y" by auto
  have "I r' \<and> list_all2 Q xs ys'"
    by (rule Cons.IH [OF f i1]) (use Cons.prems(3) in auto)
  with q ys show ?case by simp
qed

lemma forEach_all_set:
  assumes "forEach body xs r = Some (ys, r')" and "I r"
    and step: "\<And>x r y r'. x \<in> set xs \<Longrightarrow> I r \<Longrightarrow> body x r = Some (y, r') \<Longrightarrow> I r' \<and> P x"
  shows "I r' \<and> (\<forall>x \<in> set xs. P x) \<and> length ys = length xs"
proof -
  have "I r' \<and> list_all2 (\<lambda>x y. P x) xs ys"
    by (rule forEach_all [where I = I and Q = "\<lambda>x y. P x", OF assms(1,2)]) (use step in blast)
  then show ?thesis
    by (auto simp: list_all2_conv_all_nth in_set_conv_nth)
qed

lemma forEach_length: "forEach body xs r = Some (ys, r') \<Longrightarrow> length ys = length xs"
  using forEach_all_set [where I = "\<lambda>r. True" and P = "\<lambda>x. True"] by blast

lemma iterations_less: "i < iterations c \<longleftrightarrow> of_nat i < c"
proof -
  have "i < nat \<lceil>c\<rceil> \<longleftrightarrow> int i < \<lceil>c\<rceil>" by linarith
  also have "\<dots> \<longleftrightarrow> of_int (int i) < c" by (rule less_ceiling_iff)
  finally show ?thesis by (simp add: iterations_def)
qed

lemma iterations_mult: "0 < ent \<Longrightarrow> i < iterations (of_nat sz / of_nat ent) \<longleftrightarrow> i * ent < sz"
proof -
  assume e: "0 < ent"
  have "(of_nat i :: rat) < of_nat sz / of_nat ent \<longleftrightarrow> (of_nat i :: rat) * of_nat ent < of_nat sz"
    using e by (simp add: pos_less_divide_eq)
  also have "\<dots> \<longleftrightarrow> i * ent < sz"
    by (simp only: of_nat_mult [symmetric] of_nat_less_iff)
  finally show ?thesis by (simp add: iterations_less)
qed

lemma iterations_ceiling:
  assumes "0 < ent"
  shows "iterations (of_nat sz / of_nat ent)
     = (if ent dvd sz then sz div ent else sz div ent + 1)"
proof -
  let ?k = "if ent dvd sz then sz div ent else sz div ent + 1"
  have "i < iterations (of_nat sz / of_nat ent) \<longleftrightarrow> i < ?k" for i
  proof -
    have "i * ent < sz \<longleftrightarrow> i < ?k"
    proof (cases "ent dvd sz")
      case True
      then obtain q where q: "sz = ent * q" by (auto elim: dvdE)
      with assms show ?thesis by (simp add: mult.commute)
    next
      case False
      then have m: "0 < sz mod ent" by (simp add: dvd_eq_mod_eq_0)
      have s: "sz = sz div ent * ent + sz mod ent" by simp
      show ?thesis
      proof
        assume "i * ent < sz"
        then have "i * ent div ent \<le> sz div ent" by (intro div_le_mono) simp
        with assms have "i \<le> sz div ent" by simp
        with False show "i < ?k" by simp
      next
        assume "i < ?k"
        with False have "i \<le> sz div ent" by simp
        then have "i * ent \<le> sz div ent * ent" by (rule mult_le_mono1)
        with s m show "i * ent < sz" by linarith
      qed
    qed
    with iterations_mult [OF assms] show ?thesis by simp
  qed
  note h = this
  have "\<not> iterations (of_nat sz / of_nat ent) < ?k"
    using h [of "iterations (of_nat sz / of_nat ent)"] by simp
  moreover have "\<not> ?k < iterations (of_nat sz / of_nat ent)"
    using h [of ?k] by simp
  ultimately show ?thesis by linarith
qed


lemma readHeader_values:
  assumes "readHeader c d r = Some (hdr, r')"
  shows "(let b = r_buf r; le = r_isLE r; w = (if r_is64 r then 8 else 4) in
      h_class hdr = c \<and> h_data hdr = d
      \<and> readUInt le 2 b 16 = Some (h_type hdr)
      \<and> readUInt le 2 b 18 = Some (h_machine hdr)
      \<and> readUInt le w b 24 = Some (h_entry hdr)
      \<and> readUInt le w b (24 + w) = Some (h_phoff hdr)
      \<and> readUInt le w b (24 + 2 * w) = Some (h_shoff hdr)
      \<and> readUInt le 4 b (24 + 3 * w) = Some (h_flags hdr)
      \<and> readUInt le 2 b (28 + 3 * w) = Some (h_ehsize hdr)
      \<and> readUInt le 2 b (30 + 3 * w) = Some (h_phentsize hdr)
      \<and> readUInt le 2 b (32 + 3 * w) = Some (h_phnum hdr)
      \<and> readUInt le 2 b (34 + 3 * w) = Some (h_shentsize hdr)
      \<and> readUInt le 2 b (36 + 3 * w) = Some (h_shnum hdr)
      \<and> readUInt le 2 b (38 + 3 * w) = Some (h_shstrndx hdr))"
proof (cases "r_is64 r")
  case True
  with assms show ?thesis
    by (clarsimp simp: readHeader_def Let_def seek_def u8_def bind_eq_Some_conv
          addr_def off_def u16_Some u32_Some u64_Some)
next
  case False
  with assms show ?thesis
    by (clarsimp simp: readHeader_def Let_def seek_def u8_def bind_eq_Some_conv
          addr_def off_def u16_Some u32_Some u64_Some)
qed

lemma readHeader_32_succeeds:
  assumes "52 \<le> length (r_buf r)" and "\<not> r_is64 r"
  shows "readHeader c d r \<noteq> None"
  using assms
  by (simp add: readHeader_def Let_def seek_def u8_def u16_def u32_def addr_def off_def
        readUInt_def)

lemma resolveSectionNames_set:
  assumes "sh \<in> set (resolveSectionNames dec data k shs)"
  shows "\<exists>sh0 \<in> set shs. \<exists>n. sh = sh0\<lparr>sh_name := n\<rparr>"
proof (cases "k < length shs")
  case True
  with assms show ?thesis by (auto simp: resolveSectionNames_def Let_def)
next
  case False
  with assms have "sh \<in> set shs" by (simp add: resolveSectionNames_def)
  moreover have "sh = sh\<lparr>sh_name := sh_name sh\<rparr>" by simp
  ultimately show ?thesis by blast
qed

lemma resolveSectionNames_length [simp]:
  "length (resolveSectionNames dec data k shs) = length shs"
  by (simp add: resolveSectionNames_def Let_def)

lemma decodeElf_stages:
  assumes "decodeElf dec data = Some m"
  obtains r0 r1 r2 r3 r4 r5 r6 shs0 dyns where
    "r0 = \<lparr>r_buf = data, r_is64 = (unat (data ! 4) = 2), r_isLE = (unat (data ! 5) = 1), r_pos = 0\<rparr>"
    "readHeader (unat (data ! 4)) (unat (data ! 5)) r0 = Some (header m, r1)"
    "forEach (\<lambda>i. readProgramHeader (r_is64 r0) (h_phoff (header m) + i * h_phentsize (header m)))
       [0 ..< h_phnum (header m)] r1 = Some (programHeaders m, r2)"
    "forEach (\<lambda>i. readSectionHeader (h_shoff (header m) + i * h_shentsize (header m)))
       [0 ..< h_shnum (header m)] r2 = Some (shs0, r3)"
    "sectionHeaders m = resolveSectionNames dec data (h_shstrndx (header m)) shs0"
    "forEach (readSymbolTable dec data (r_is64 r0) (sectionHeaders m))
       (filter (\<lambda>sh. \<not> (sh_type sh \<noteq> 2 \<and> sh_type sh \<noteq> 11)) (sectionHeaders m)) r3
       = Some (symbols m, r4)"
    "forEach (readDynamicSection (r_is64 r0))
       (filter (\<lambda>sh. \<not> (sh_type sh \<noteq> 6)) (sectionHeaders m)) r4 = Some (dyns, r5)"
    "dynamicEntries m = concat dyns"
    "forEach (readRelocationTable (r_is64 r0) (sectionHeaders m) (symbols m))
       (filter (\<lambda>sh. \<not> (sh_type sh \<noteq> 4 \<and> sh_type sh \<noteq> 9)) (sectionHeaders m)) r5
       = Some (relocations m, r6)"
    "stringTables m = map (readStringTable dec data)
       (filter (\<lambda>sh. \<not> (sh_type sh \<noteq> 3)) (sectionHeaders m))"
  using assms
  by (auto simp: decodeElf_def Let_def bind_eq_Some_conv)

section \<open>Class and data bytes other than 1 and 2\<close>

text \<open>
  Claim C1 (counterexample). A header with class byte 3 is not refused: the decode
  returns a model, with the header read as that of a 32-bit file.
\<close>

theorem class3_decoded:
  "parseElf ascii file_class3 = Parsed
     \<lparr>header = \<lparr>h_class = 3, h_data = 1, h_version = Some 1, h_osabi = Some 0, h_type = 2,
        h_machine = 3, h_entry = 0, h_phoff = 0, h_shoff = 0, h_flags = 0, h_ehsize = 52,
        h_phentsize = 0, h_phnum = 0, h_shentsize = 0, h_shnum = 0, h_shstrndx = 0\<rparr>,
      programHeaders = [], sectionHeaders = [], symbols = [], dynamicEntries = [],
      dynamicSectionOffset = 0, relocations = [], stringTables = []\<rparr>"
  unfolding file_class3_def by code_simp

text \<open>
  Claim C1 (amended). A buffer of at least 52 bytes that starts with the ELF magic is
  never refused for its class or data byte: \<^verbatim>\<open>parseElf\<close> does not return \<^verbatim>\<open>null\<close>. The
  decoder takes any class byte other than 2 for a 32-bit file and any data byte other
  than 1 for big-endian; with a class byte other than 2 the header always decodes. The
  header of every model returned records the two bytes as they are and has its fields
  read at the positions and in the byte order so chosen.
\<close>

theorem parseElf_class_data_unchecked:
  assumes "52 \<le> length data" and "take 4 data = [0x7f, 0x45, 0x4c, 0x46]"
  shows "parseElf dec data \<noteq> Null
    \<and> (unat (data ! 4) \<noteq> 2 \<longrightarrow>
         readHeader (unat (data ! 4)) (unat (data ! 5))
           \<lparr>r_buf = data, r_is64 = False, r_isLE = (unat (data ! 5) = 1), r_pos = 0\<rparr> \<noteq> None)
    \<and> (\<forall>m. parseElf dec data = Parsed m \<longrightarrow>
         (let is64 = (unat (data ! 4) = 2); isLE = (unat (data ! 5) = 1);
              w = (if is64 then 8 else 4)
          in h_class (header m) = unat (data ! 4) \<and> h_data (header m) = unat (data ! 5)
             \<and> readUInt isLE 2 data 16 = Some (h_type (header m))
             \<and> readUInt isLE 2 data 18 = Some (h_machine (header m))
             \<and> readUInt isLE w data 24 = Some (h_entry (header m))
             \<and> readUInt isLE w data (24 + w) = Some (h_phoff (header m))
             \<and> readUInt isLE w data (24 + 2 * w) = Some (h_shoff (header m))
             \<and> readUInt isLE 4 data (24 + 3 * w) = Some (h_flags (header m))
             \<and> readUInt isLE 2 data (28 + 3 * w) = Some (h_ehsize (header m))
             \<and> readUInt isLE 2 data (30 + 3 * w) = Some (h_phentsize (header m))
             \<and> readUInt isLE 2 data (32 + 3 * w) = Some (h_phnum (header m))
             \<and> readUInt isLE 2 data (34 + 3 * w) = Some (h_shentsize (header m))
             \<and> readUInt isLE 2 data (36 + 3 * w) = Some (h_shnum (header m))
             \<and> readUInt isLE 2 data (38 + 3 * w) = Some (h_shstrndx (header m))))"
proof (intro conjI allI impI)
  from assms show "parseElf dec data \<noteq> Null"
    by (auto simp: parseElf_def take4_nth split: option.splits)
next
  from assms(1)
  show "readHeader (unat (data ! 4)) (unat (data ! 5))
      \<lparr>r_buf = data, r_is64 = False, r_isLE = (unat (data ! 5) = 1), r_pos = 0\<rparr> \<noteq> None"
    by (intro readHeader_32_succeeds) simp_all
next
  fix m
  assume "parseElf dec data = Parsed m"
  then have "decodeElf dec data = Some m" by (simp add: parseElf_Parsed)
  then obtain r0 r1 where
    r0: "r0 = \<lparr>r_buf = data, r_is64 = (unat (data ! 4) = 2), r_isLE = (unat (data ! 5) = 1), r_pos = 0\<rparr>"
    and hd: "readHeader (unat (data ! 4)) (unat (data ! 5)) r0 = Some (header m, r1)"
    by (rule decodeElf_stages)
  from readHeader_values [OF hd] r0
  show "let is64 = (unat (data ! 4) = 2); isLE = (unat (data ! 5) = 1);
              w = (if is64 then 8 else 4)
          in h_class (header m) = unat (data ! 4) \<and> h_data (header m) = unat (data ! 5)
             \<and> readUInt isLE 2 data 16 = Some (h_type (header m))
             \<and> readUInt isLE 2 data 18 = Some (h_machine (header m))
             \<and> readUInt isLE w data 24 = Some (h_entry (header m))
             \<and> readUInt isLE w data (24 + w) = Some (h_phoff (header m))
             \<and> readUInt isLE w data (24 + 2 * w) = Some (h_shoff (header m))
             \<and> readUInt isLE 4 data (24 + 3 * w) = Some (h_flags (header m))
             \<and> readUInt isLE 2 data (28 + 3 * w) = Some (h_ehsize (header m))
             \<and> readUInt isLE 2 data (30 + 3 * w) = Some (h_phentsize (header m))
             \<and> readUInt isLE 2 data (32 + 3 * w) = Some (h_phnum (header m))
             \<and> readUInt isLE 2 data (34 + 3 * w) = Some (h_shentsize (header m))
             \<and> readUInt isLE 2 data (36 + 3 * w) = Some (h_shnum (header m))
             \<and> readUInt isLE 2 data (38 + 3 * w) = Some (h_shstrndx (header m))"
    by (simp add: Let_def)
qed

theorem parseElf_class_data_unchecked_witness:
  "52 \<le> length file_class3 \<and> take 4 file_class3 = [0x7f, 0x45, 0x4c, 0x46]
   \<and> parseElf ascii file_class3 \<noteq> Null
   \<and> (\<exists>m. parseElf ascii file_class3 = Parsed m \<and> h_class (header m) = 3
          \<and> h_entry (header m) = 0)"
proof -
  have a: "52 \<le> length file_class3" and b: "take 4 file_class3 = [0x7f, 0x45, 0x4c, 0x46]"
    and c: "unat (file_class3 ! 4) = 3" and d: "unat (file_class3 ! 5) = 1"
    and e: "readUInt True 4 file_class3 24 = Some 0"
    and p: "case parseElf ascii file_class3 of Parsed m \<Rightarrow> True | _ \<Rightarrow> False"
    unfolding file_class3_def by code_simp+
  from p obtain m where m: "parseElf ascii file_class3 = Parsed m"
    by (auto split: parse_result.splits)
  from parseElf_class_data_unchecked [OF a b, of ascii] m c d e
  have "parseElf ascii file_class3 \<noteq> Null" and "h_class (header m) = 3"
    and "h_entry (header m) = 0"
    by (simp_all add: Let_def)
  with a b m show ?thesis by blast
qed

section \<open>Table entries beyond the end of the buffer\<close>


lemma readProgramHeader_in_range:
  assumes "readProgramHeader (r_is64 r) p r = Some (ph, r')"
  shows "sameFile r r' \<and> p + phBytes (r_is64 r) \<le> length (r_buf r)"
proof (cases "r_is64 r")
  case True
  with assms show ?thesis
    by (clarsimp simp: readProgramHeader_def seek_def bind_eq_Some_conv sameFile_def
          phBytes_def addr_def off_def xword_def dest!: u32D u64D)
next
  case False
  with assms show ?thesis
    by (clarsimp simp: readProgramHeader_def seek_def bind_eq_Some_conv sameFile_def
          phBytes_def addr_def off_def xword_def dest!: u32D u64D)
qed

lemma readSectionHeader_in_range:
  assumes "readSectionHeader p r = Some (sh, r')"
  shows "sameFile r r' \<and> p + shBytes (r_is64 r) \<le> length (r_buf r)"
proof (cases "r_is64 r")
  case True
  with assms show ?thesis
    by (clarsimp simp: readSectionHeader_def seek_def bind_eq_Some_conv sameFile_def
          shBytes_def addr_def off_def xword_def dest!: u32D u64D)
next
  case False
  with assms show ?thesis
    by (clarsimp simp: readSectionHeader_def seek_def bind_eq_Some_conv sameFile_def
          shBytes_def addr_def off_def xword_def dest!: u32D u64D)
qed

lemma readSymbol_in_range:
  assumes "readSymbol dec data (r_is64 r) strSec strOff entSize p r = Some (s, r')"
  shows "sameFile r r' \<and> p + symBytes (r_is64 r) \<le> length (r_buf r)"
proof (cases "r_is64 r")
  case True
  with assms show ?thesis
    by (clarsimp simp: readSymbol_def Let_def seek_def bind_eq_Some_conv sameFile_def
          symBytes_def addr_def off_def xword_def split_def u8_def dest!: u16D u32D u64D)
next
  case False
  with assms show ?thesis
    by (clarsimp simp: readSymbol_def Let_def seek_def bind_eq_Some_conv sameFile_def
          symBytes_def addr_def off_def xword_def split_def u8_def dest!: u16D u32D u64D)
qed

lemma readRelocation_in_range:
  assumes "readRelocation (r_is64 r) isRela symSymbols entSize p r = Some (e, r')"
  shows "sameFile r r' \<and> p + relBytes (r_is64 r) isRela \<le> length (r_buf r)"
proof (cases "r_is64 r")
  case True
  with assms show ?thesis
    by (cases isRela)
       (clarsimp simp: readRelocation_def Let_def seek_def bind_eq_Some_conv sameFile_def
          relBytes_def addr_def xword_def addrBytes_def dest!: u32D u64D sxwordD)+
next
  case False
  with assms show ?thesis
    by (cases isRela)
       (clarsimp simp: readRelocation_def Let_def seek_def bind_eq_Some_conv sameFile_def
          relBytes_def addr_def xword_def addrBytes_def dest!: u32D u64D sxwordD)+
qed

text \<open>
  Conversely, an entry that lies inside the buffer is read: the reads of an entry throw
  exactly when the entry does not fit.
\<close>

lemma readProgramHeader_None:
  "readProgramHeader (r_is64 r) p r = None \<longleftrightarrow> length (r_buf r) < p + phBytes (r_is64 r)"
proof (cases "p + phBytes (r_is64 r) \<le> length (r_buf r)")
  case True
  then have "readProgramHeader (r_is64 r) p r \<noteq> None"
    by (cases "r_is64 r")
       (simp_all add: readProgramHeader_def seek_def u32_def u64_def addr_def off_def xword_def
          readUInt_def phBytes_def)
  with True show ?thesis by simp
next
  case False
  with readProgramHeader_in_range [of r p] show ?thesis by (cases "readProgramHeader (r_is64 r) p r") auto
qed

lemma readSectionHeader_None:
  "readSectionHeader p r = None \<longleftrightarrow> length (r_buf r) < p + shBytes (r_is64 r)"
proof (cases "p + shBytes (r_is64 r) \<le> length (r_buf r)")
  case True
  then have "readSectionHeader p r \<noteq> None"
    by (cases "r_is64 r")
       (simp_all add: readSectionHeader_def seek_def u32_def u64_def addr_def off_def xword_def
          readUInt_def shBytes_def)
  with True show ?thesis by simp
next
  case False
  with readSectionHeader_in_range [of p r] show ?thesis by (cases "readSectionHeader p r") auto
qed

lemma readSymbol_None:
  "readSymbol dec data (r_is64 r) strSec strOff entSize p r = None
     \<longleftrightarrow> length (r_buf r) < p + symBytes (r_is64 r)"
proof (cases "p + symBytes (r_is64 r) \<le> length (r_buf r)")
  case True
  then have "readSymbol dec data (r_is64 r) strSec strOff entSize p r \<noteq> None"
    by (cases "r_is64 r")
       (simp_all add: readSymbol_def Let_def seek_def u8_def u16_def u32_def u64_def addr_def
          xword_def readUInt_def symBytes_def)
  with True show ?thesis by simp
next
  case False
  with readSymbol_in_range [of dec data r strSec strOff entSize p] show ?thesis
    by (cases "readSymbol dec data (r_is64 r) strSec strOff entSize p r") auto
qed

lemma readRelocation_None:
  "readRelocation (r_is64 r) isRela symSymbols entSize p r = None
     \<longleftrightarrow> length (r_buf r) < p + relBytes (r_is64 r) isRela"
proof (cases "p + relBytes (r_is64 r) isRela \<le> length (r_buf r)")
  case True
  then have "readRelocation (r_is64 r) isRela symSymbols entSize p r \<noteq> None"
    by (cases "r_is64 r"; cases isRela)
       (simp_all add: readRelocation_def Let_def seek_def u32_def u64_def addr_def xword_def
          sxword_def readInt_def readUInt_def relBytes_def)
  with True show ?thesis by simp
next
  case False
  with readRelocation_in_range [of r isRela symSymbols entSize p] show ?thesis
    by (cases "readRelocation (r_is64 r) isRela symSymbols entSize p r") auto
qed








section \<open>The number of entries of a table\<close>

lemma symEntSize_pos: "0 < symEntSize is64 sh"
  by (simp add: symEntSize_def)

lemma dynEntSize_pos: "0 < dynEntSize is64 sh"
  by (simp add: dynEntSize_def)

text \<open>
  What the code does in general: the number of symbols read from a symbol table is the
  quotient of size and entry size rounded up, which is the truncating quotient only when
  the size is a multiple of the entry size.
\<close>

lemma readSymbolTable_count:
  assumes "readSymbolTable dec data is64 shs sh r = Some (t, r')"
  shows "length (symtab_symbols t) =
     (if symEntSize is64 sh dvd sh_size sh then sh_size sh div symEntSize is64 sh
      else sh_size sh div symEntSize is64 sh + 1)"
proof -
  from assms obtain ys where
    "forEach (\<lambda>i. readSymbol dec data is64
           (if sh_link sh < length shs then Some (shs ! sh_link sh) else None)
           (case (if sh_link sh < length shs then Some (shs ! sh_link sh) else None) of
              Some s \<Rightarrow> sh_offset s | None \<Rightarrow> 0)
           (symEntSize is64 sh) (sh_offset sh + i * symEntSize is64 sh))
         [0 ..< iterations (entryCount sh (symEntSize is64 sh))] r = Some (ys, r')"
    and "symtab_symbols t = ys"
    by (auto simp: readSymbolTable_def Let_def bind_eq_Some_conv)
  from forEach_length [OF this(1)] this(2)
  have "length (symtab_symbols t) = iterations (entryCount sh (symEntSize is64 sh))" by simp
  then show ?thesis
    by (simp only: entryCount_def iterations_ceiling [OF symEntSize_pos])
qed

text \<open>
  Claim C7 (evaluation). A symbol table of size 17 with entries of 16 bytes has one whole
  entry, \<open>17 div 16 = 1\<close>; the decoder reads two, the second at bytes 68 to 84, beyond the
  end of the section at 69.
\<close>

theorem symtab_remainder_two_entries:
  "(case parseElf ascii file_symtab_remainder of
      Parsed m \<Rightarrow>
        map (\<lambda>sh. (sh_type sh, sh_offset sh, sh_size sh, sh_entsize sh)) (sectionHeaders m)
          = [(2, 52, 17, 16)]
        \<and> map (map st_fileOffset \<circ> symtab_symbols) (symbols m) = [[52, 68]]
    | _ \<Rightarrow> False)
   \<and> (17 :: nat) div 16 = 1"
  unfolding file_symtab_remainder_def by code_simp

theorem symtab_remainder_two_entries_witness:
  "\<exists>m. parseElf ascii file_symtab_remainder = Parsed m
     \<and> map (length \<circ> symtab_symbols) (symbols m) = [2]"
  using symtab_remainder_two_entries
  by (cases "parseElf ascii file_symtab_remainder") (auto simp: o_def map_eq_Cons_conv)

text \<open>
  In the enumeration of a dynamic section no entry but the last has tag 0, and the
  enumeration is shorter than the loop's range only if its last entry has tag 0.
\<close>

lemma readDynamicEntries_terminator:
  assumes "readDynamicEntries secOff entSize ixs r = Some (es, r')"
  shows "(\<forall>e \<in> set (butlast es). d_tag e \<noteq> 0) \<and> length es \<le> length ixs
     \<and> (length es < length ixs \<longrightarrow> es \<noteq> [] \<and> d_tag (last es) = 0)"
  using assms
proof (induction ixs arbitrary: r es)
  case Nil
  then show ?case by simp
next
  case (Cons i ixs)
  from Cons.prems obtain tag r1 val r2 where
    t: "sxword (seek (secOff + i * entSize) r) = Some (tag, r1)" and v: "xword r1 = Some (val, r2)"
    and rest: "if tag = 0
       then es = [\<lparr>d_tag = tag, d_val = val, d_fileOffset = secOff + i * entSize, d_entSize = entSize\<rparr>]
       else (\<exists>es'. readDynamicEntries secOff entSize ixs r2 = Some (es', r')
              \<and> es = \<lparr>d_tag = tag, d_val = val, d_fileOffset = secOff + i * entSize,
                       d_entSize = entSize\<rparr> # es')"
    by (auto simp: Let_def bind_eq_Some_conv split: if_splits)
  show ?case
  proof (cases "tag = 0")
    case True
    with rest show ?thesis by simp
  next
    case False
    with rest obtain es' where rec: "readDynamicEntries secOff entSize ixs r2 = Some (es', r')"
      and es: "es = \<lparr>d_tag = tag, d_val = val, d_fileOffset = secOff + i * entSize,
                       d_entSize = entSize\<rparr> # es'"
      by auto
    from Cons.IH [OF rec] False es show ?thesis by (cases es') auto
  qed
qed

lemma readDynamicSection_count:
  assumes "readDynamicSection is64 sh r = Some (es, r')"
  shows "(\<forall>e \<in> set (butlast es). d_tag e \<noteq> 0)
     \<and> ((\<forall>e \<in> set es. d_tag e \<noteq> 0) \<longrightarrow>
          length es = (if dynEntSize is64 sh dvd sh_size sh then sh_size sh div dynEntSize is64 sh
                       else sh_size sh div dynEntSize is64 sh + 1))"
proof -
  let ?n = "iterations (entryCount sh (dynEntSize is64 sh))"
  from assms have "readDynamicEntries (sh_offset sh) (dynEntSize is64 sh) [0 ..< ?n] r = Some (es, r')"
    by (simp add: readDynamicSection_def Let_def)
  from readDynamicEntries_terminator [OF this]
  have a: "\<forall>e \<in> set (butlast es). d_tag e \<noteq> 0" and b: "length es \<le> ?n"
    and c: "length es < ?n \<longrightarrow> es \<noteq> [] \<and> d_tag (last es) = 0"
    by simp_all
  have "length es = ?n" if "\<forall>e \<in> set es. d_tag e \<noteq> 0"
  proof (rule ccontr)
    assume "length es \<noteq> ?n"
    with b c have "es \<noteq> []" and "d_tag (last es) = 0" by simp_all
    with that show False using last_in_set by blast
  qed
  with a show ?thesis
    by (simp only: entryCount_def iterations_ceiling [OF dynEntSize_pos]) blast
qed

text \<open>
  Claim C8 (evaluation). A dynamic section of size 12 with entries of 8 bytes and no
  terminator has one whole entry, \<open>12 div 8 = 1\<close>; the decoder enumerates two, the second
  at bytes 60 to 68, beyond the end of the section at 64.
\<close>

theorem dynamic_remainder_two_entries:
  "(case parseElf ascii file_dynamic_remainder of
      Parsed m \<Rightarrow>
        map (\<lambda>sh. (sh_type sh, sh_offset sh, sh_size sh, sh_entsize sh)) (sectionHeaders m)
          = [(6, 52, 12, 8)]
        \<and> map (\<lambda>d. (d_tag d, d_fileOffset d)) (dynamicEntries m) = [(1, 52), (14, 60)]
    | _ \<Rightarrow> False)
   \<and> (12 :: nat) div 8 = 1"
  unfolding file_dynamic_remainder_def by code_simp

theorem dynamic_remainder_two_entries_witness:
  "\<exists>m. parseElf ascii file_dynamic_remainder = Parsed m \<and> length (dynamicEntries m) = 2"
  using dynamic_remainder_two_entries
  by (cases "parseElf ascii file_dynamic_remainder") (auto dest: arg_cong [where f = length])

section \<open>The symbol index of a relocation\<close>

text \<open>
  Claim C5 (counterexample). In a 32-bit file, a relocation with info \<open>0x0105\<close> is
  resolved to the name of symbol 1, the info shifted right by 8 bits, in a table of two
  symbols; its low-order byte is 5.
\<close>

theorem rel32_symbol_index:
  "(case parseElf ascii file_rel32 of
      Parsed m \<Rightarrow>
        h_class (header m) = 1
        \<and> map (map st_name \<circ> symtab_symbols) (symbols m) = [[str ''f'', str ''g'']]
        \<and> map (map (\<lambda>e. (rl_info e, rl_symbolName e)) \<circ> reltab_entries) (relocations m)
          = [[(0x0105, Some (str ''g''))]]
    | _ \<Rightarrow> False)
   \<and> (0x0105 :: nat) mod 2 ^ 8 = 5 \<and> (0x0105 :: nat) div 2 ^ 8 = 1"
  unfolding file_rel32_def by code_simp

text \<open>
  Claim C5 (amended). The symbol index of a relocation entry is the info shifted right
  by 8 bits in a 32-bit file, that is the high-order 24 bits of the 32-bit info, and the
  info shifted right by 32 bits in a 64-bit file, its high-order 32 bits. The entry is
  resolved to the name of the symbol with that index when the index is not 0 and is
  inside the linked symbol table.
\<close>

theorem readRelocation_symbol_index:
  assumes "readRelocation (r_is64 r) isRela symSymbols entSize p r = Some (e, r')"
  shows "(let idx = (if r_is64 r then rl_info e div 2 ^ 32 else rl_info e div 2 ^ 8) in
      rl_info e < (if r_is64 r then 2 ^ 64 else 2 ^ 32)
      \<and> idx < (if r_is64 r then 2 ^ 32 else 2 ^ 24)
      \<and> rl_symbolName e =
          (case symSymbols of
             Some syms \<Rightarrow> if 0 < idx \<and> idx < length syms then Some (st_name (syms ! idx)) else None
           | None \<Rightarrow> None))"
proof -
  have "\<exists>offset r1 r2. addr (seek p r) = Some (offset, r1) \<and> xword r1 = Some (rl_info e, r2)
      \<and> rl_symbolName e =
          (case symSymbols of
             Some syms \<Rightarrow>
               if (if r_is64 r then drop_bit 32 (rl_info e) else drop_bit 8 (rl_info e)) > 0
                  \<and> (if r_is64 r then drop_bit 32 (rl_info e) else drop_bit 8 (rl_info e)) < length syms
               then Some (st_name (syms ! (if r_is64 r then drop_bit 32 (rl_info e)
                                            else drop_bit 8 (rl_info e))))
               else None
           | None \<Rightarrow> None)"
    using assms
    by (cases isRela; cases "r_is64 r")
       (auto simp: readRelocation_def Let_def bind_eq_Some_conv split: option.splits)
  then obtain offset r1 r2 where
    a: "addr (seek p r) = Some (offset, r1)" and x: "xword r1 = Some (rl_info e, r2)"
    and n: "rl_symbolName e =
          (case symSymbols of
             Some syms \<Rightarrow>
               if (if r_is64 r then drop_bit 32 (rl_info e) else drop_bit 8 (rl_info e)) > 0
                  \<and> (if r_is64 r then drop_bit 32 (rl_info e) else drop_bit 8 (rl_info e)) < length syms
               then Some (st_name (syms ! (if r_is64 r then drop_bit 32 (rl_info e)
                                            else drop_bit 8 (rl_info e))))
               else None
           | None \<Rightarrow> None)"
    by blast
  from addrD [OF a] have "r_is64 r1 = r_is64 r" by (simp add: seek_def)
  with xword_bound [OF x] have b: "rl_info e < 2 ^ (if r_is64 r then 64 else 32)" by simp
  have d: "(if r_is64 r then rl_info e div 2 ^ 32 else rl_info e div 2 ^ 8)
             < (if r_is64 r then 2 ^ 32 else 2 ^ 24)"
    using b by (auto simp: less_mult_imp_div_less)
  from b d n show ?thesis
    by (cases "r_is64 r") (simp_all add: Let_def drop_bit_eq_div split: option.splits)
qed

theorem readRelocation_symbol_index_witness:
  "\<exists>e r'. readRelocation False False (Some two_symbols) 8 0 rel_entry_reader = Some (e, r')
     \<and> rl_info e = 0x0105 \<and> rl_symbolName e = Some (str ''g'')"
proof -
  have "case readRelocation False False (Some two_symbols) 8 0 rel_entry_reader of
          Some (e, r') \<Rightarrow> rl_info e = 0x0105 | None \<Rightarrow> False"
    unfolding rel_entry_reader_def two_symbols_def by code_simp
  then obtain e r' where
    e: "readRelocation False False (Some two_symbols) 8 0 rel_entry_reader = Some (e, r')"
    and i: "rl_info e = 0x0105"
    by (auto split: option.splits)
  have f: "r_is64 rel_entry_reader = False" by (simp add: rel_entry_reader_def)
  from readRelocation_symbol_index [of rel_entry_reader False "Some two_symbols" 8 0 e r'] e i f
  have "rl_symbolName e = Some (str ''g'')"
    by (simp add: Let_def two_symbols_def)
  with e i show ?thesis by blast
qed

section \<open>The entries of a string table\<close>

declare readStrings.simps [simp del]







section \<open>The string table scenario\<close>

lemma readCString_append:
  "readCString dec (pre @ xs) (length pre + k) = readCString dec xs k"
  by (simp add: readCString_def)

lemma readStrings_append:
  "readStrings dec (pre @ xs) (length pre + endPos) (length pre + pos)
     = map (\<lambda>e. e\<lparr>se_fileOffset := length pre + se_fileOffset e\<rparr>) (readStrings dec xs endPos pos)"
proof (induction dec xs endPos pos rule: readStrings.induct)
  case (1 dec xs endPos pos)
  show ?case
  proof (cases "pos < endPos")
    case True
    have "length pre + pos + length (readCString dec xs pos) + 1
            = length pre + (pos + length (readCString dec xs pos) + 1)"
      by simp
    with "1.IH" [OF True refl] True show ?thesis
      by (subst readStrings.simps, subst (2) readStrings.simps)
         (simp add: Let_def readCString_append add.assoc)
  next
    case False
    then show ?thesis
      by (subst readStrings.simps, subst (2) readStrings.simps) simp
  qed
qed

lemma readStrings_step:
  "pos < endPos \<Longrightarrow> readStrings dec data endPos pos =
     (if length (readCString dec data pos) > 0
      then [\<lparr>se_value = readCString dec data pos, se_fileOffset = pos,
              se_length = length (readCString dec data pos) + 1\<rparr>]
      else [])
     @ readStrings dec data endPos (pos + length (readCString dec data pos) + 1)"
  by (subst readStrings.simps) (simp add: Let_def)

lemma readStrings_stop: "\<not> pos < endPos \<Longrightarrow> readStrings dec data endPos pos = []"
  by (subst readStrings.simps) simp

lemma scenario_section:
  "readStrings ascii
     ([0x61, 0x62, 0x63, 0, 0, 0x64, 0x65, 0, 0, 0, 0, 0, 0, 0, 0, 0, 0, 0, 0, 0] @ post) 20 0
   = [\<lparr>se_value = str ''abc'', se_fileOffset = 0, se_length = 4\<rparr>,
      \<lparr>se_value = str ''de'', se_fileOffset = 5, se_length = 3\<rparr>]"
  by (simp add: readStrings_step readStrings_stop readCString_def ascii_def str_def)

text \<open>
  Claim C9. In any buffer, a STRTAB section that spans the bytes 100 to 119 and holds
  \<open>abc\<close>, NUL, NUL, \<open>de\<close>, NUL and then NUL bytes up to its end has exactly the two
  entries (\<open>abc\<close>, 100, 4) and (\<open>de\<close>, 105, 3): the NUL at 104 is an empty string, which
  is not an entry and takes one byte, so that the next run starts at 105.
\<close>

theorem strtab_scenario:
  assumes "length pre = 100" and "sh_offset sh = 100" and "sh_size sh = 20"
  shows "strtab_strings (readStringTable ascii
       (pre @ [0x61, 0x62, 0x63, 0, 0, 0x64, 0x65, 0, 0, 0, 0, 0, 0, 0, 0, 0, 0, 0, 0, 0] @ post) sh)
     = [\<lparr>se_value = str ''abc'', se_fileOffset = 100, se_length = 4\<rparr>,
        \<lparr>se_value = str ''de'', se_fileOffset = 105, se_length = 3\<rparr>]"
proof -
  let ?sec = "[0x61, 0x62, 0x63, 0, 0, 0x64, 0x65, 0, 0, 0, 0, 0, 0, 0, 0, 0, 0, 0, 0, 0] :: byte list"
  have "readStrings ascii (pre @ ?sec @ post) 120 100
      = readStrings ascii (pre @ (?sec @ post)) (length pre + 20) (length pre + 0)"
    using assms(1) by simp
  also have "\<dots> = map (\<lambda>e. e\<lparr>se_fileOffset := length pre + se_fileOffset e\<rparr>)
          (readStrings ascii (?sec @ post) 20 0)"
    by (rule readStrings_append)
  also have "\<dots> = [\<lparr>se_value = str ''abc'', se_fileOffset = 100, se_length = 4\<rparr>,
        \<lparr>se_value = str ''de'', se_fileOffset = 105, se_length = 3\<rparr>]"
    unfolding scenario_section using assms(1) by simp
  finally show ?thesis
    using assms(2,3) by (simp add: readStringTable_def Let_def)
qed

theorem strtab_scenario_witness:
  "strtab_strings (readStringTable ascii file_strtab_scenario
       \<lparr>sh_nameIdx = 0, sh_name = [], sh_type = 3, sh_flags = 0, sh_addr = 0, sh_offset = 100,
         sh_size = 20, sh_link = 0, sh_info = 0, sh_addralign = 0, sh_entsize = 0\<rparr>)
     = [\<lparr>se_value = str ''abc'', se_fileOffset = 100, se_length = 4\<rparr>,
        \<lparr>se_value = str ''de'', se_fileOffset = 105, se_length = 3\<rparr>]"
proof -
  have f: "file_strtab_scenario = take 100 file_strtab_scenario
       @ [0x61, 0x62, 0x63, 0, 0, 0x64, 0x65, 0, 0, 0, 0, 0, 0, 0, 0, 0, 0, 0, 0, 0]
       @ drop 120 file_strtab_scenario"
    and l: "length (take 100 file_strtab_scenario) = 100"
    unfolding file_strtab_scenario_def by code_simp+
  from strtab_scenario [OF l, of _ "drop 120 file_strtab_scenario"] f show ?thesis
    by simp
qed

end
